theory Spec2Isabelle
  imports Complex_Main
begin

section \<open>The conjugate gradient solver of amgcl/solver/cg.hpp\<close>

text \<open>
  The class template \<open>cg<Backend>\<close> is generic in the backend: its vector type, its
  value type and the primitives \<open>backend::residual\<close>, \<open>norm\<close> (here \<open>norm_v\<close>), \<open>inner_product\<close>,
  \<open>axpby\<close>, \<open>copy\<close>, \<open>spmv\<close> and \<open>clear\<close> come from \<open>amgcl/backend/interface.hpp\<close>,
  which is not among the sources. The embedding is generic in the same way: the value
  type is a type variable \<open>'s\<close> that only has the operators the solver writes
  (\<open>0\<close>, \<open>1\<close>, unary minus, \<open>/\<close>, \<open>>\<close>), with no law assumed about any of them, so
  that a division by zero yields whatever the value type's division yields; the vector
  and matrix types are type variables \<open>'v\<close> and \<open>'m\<close>; the primitives are the fields of
  a record that the solver takes as a parameter.

  A primitive that writes a vector through a reference returns the new content of that
  vector. \<open>axpby\<close>, \<open>spmv\<close> and \<open>clear\<close> also take the old content of their output;
  \<open>residual\<close>, \<open>copy\<close> and the preconditioner compute their output from their
  inputs alone, and no primitive writes anything but its output (sections 4.1 and 4.2
  of the specification).
\<close>

subsection \<open>Data\<close>

record ('s, 'v, 'm, 'bp) backend =
  create_vector :: "nat \<Rightarrow> 'bp \<Rightarrow> 'v"
  backend_params :: "'bp"
  residual :: "'v \<Rightarrow> 'm \<Rightarrow> 'v \<Rightarrow> 'v"
  norm_v :: "'v \<Rightarrow> 's"
  inner_product :: "'v \<Rightarrow> 'v \<Rightarrow> 's"
  axpby :: "'s \<Rightarrow> 'v \<Rightarrow> 's \<Rightarrow> 'v \<Rightarrow> 'v"
  copy :: "'v \<Rightarrow> 'v"
  spmv :: "'s \<Rightarrow> 'm \<Rightarrow> 'v \<Rightarrow> 's \<Rightarrow> 'v \<Rightarrow> 'v"
  clear :: "'v \<Rightarrow> 'v"

text \<open>\<open>struct params\<close>: \<open>size_t maxiter\<close> and \<open>value_type tol\<close>.\<close>

record 's params =
  maxiter :: nat
  tol :: 's

text \<open>
  The private members of \<open>cg\<close>: the parameters, the system size and the four scratch
  vectors the shared pointers \<open>r\<close>, \<open>s\<close>, \<open>p\<close>, \<open>q\<close> point to.
\<close>

record ('s, 'v) cg =
  prm :: "'s params"
  n :: nat
  r :: 'v
  s :: 'v
  p :: 'v
  q :: 'v

text \<open>
  What the four-argument \<open>operator()\<close> works on while it runs: the members, its
  arguments \<open>A\<close>, \<open>P\<close>, \<open>rhs\<close> (here \<open>A_arg\<close>, \<open>P_arg\<close>, \<open>rhs_arg\<close>) and \<open>x\<close>, and
  its locals \<open>rho1\<close>, \<open>rho2\<close>, \<open>norm_of_rhs\<close> and \<open>iter\<close>. The preconditioner is
  what its \<open>operator()\<close> computes: the new content of the output vector from the
  input vector.
\<close>

record ('s, 'v, 'm) cg_run = "('s, 'v) cg" +
  A_arg :: 'm
  P_arg :: "'v \<Rightarrow> 'v"
  rhs_arg :: 'v
  x :: 'v
  rho1 :: 's
  rho2 :: 's
  norm_of_rhs :: 's
  iter :: nat

text \<open>
  A preconditioner that has a \<open>top_matrix()\<close>, as the three-argument call needs;
  \<open>precond_apply\<close> is its \<open>operator()\<close>.
\<close>

record ('v, 'm) precond =
  precond_apply :: "'v \<Rightarrow> 'v"
  top_matrix :: "'m"

subsection \<open>Construction\<close>

text \<open>
  \<open>params(size_t maxiter = 100, value_type tol = 1e-8)\<close>: an argument left out is
  \<open>None\<close>. The literal \<open>1e-8\<close> is read as the decimal fraction.
\<close>

definition params_ctor :: "nat option \<Rightarrow> 's option \<Rightarrow> ('s::{inverse,numeral}) params" where
  "params_ctor maxiter_arg tol_arg =
     \<lparr>maxiter = (case maxiter_arg of None \<Rightarrow> 100 | Some m \<Rightarrow> m),
      tol = (case tol_arg of None \<Rightarrow> 1 / 100000000 | Some t \<Rightarrow> t)\<rparr>"

text \<open>
  \<open>cg(size_t n, const params &prm = params(), const backend_params &backend_prm =
  backend_params())\<close>.
\<close>

definition cg_ctor ::
  "('s, 'v, 'm, 'bp) backend \<Rightarrow> nat \<Rightarrow> 's params option \<Rightarrow> 'bp option
     \<Rightarrow> ('s::{inverse,numeral}, 'v) cg" where
  "cg_ctor B sz prm_arg backend_prm_arg =
     (let prm0 = (case prm_arg of None \<Rightarrow> params_ctor None None | Some pr \<Rightarrow> pr);
          backend_prm = (case backend_prm_arg of None \<Rightarrow> backend_params B | Some bp \<Rightarrow> bp)
      in \<lparr>prm = prm0, n = sz,
          r = create_vector B sz backend_prm,
          s = create_vector B sz backend_prm,
          p = create_vector B sz backend_prm,
          q = create_vector B sz backend_prm\<rparr>)"

subsection \<open>The iteration\<close>

text \<open>The body of the \<open>for\<close> loop, lines 134 to 149, statement by statement.\<close>

definition cg_body ::
  "('s, 'v, 'm, 'bp) backend \<Rightarrow> ('s::{zero,one,uminus,inverse}, 'v, 'm) cg_run
     \<Rightarrow> ('s, 'v, 'm) cg_run" where
  "cg_body B st =
     (let st = st\<lparr>s := P_arg st (r st)\<rparr>;
          st = st\<lparr>rho2 := rho1 st\<rparr>;
          st = st\<lparr>rho1 := inner_product B (r st) (s st)\<rparr>;
          st = (if iter st \<noteq> 0
                then st\<lparr>p := axpby B 1 (s st) (rho1 st / rho2 st) (p st)\<rparr>
                else st\<lparr>p := copy B (s st)\<rparr>);
          st = st\<lparr>q := spmv B 1 (A_arg st) (p st) 0 (q st)\<rparr>;
          alpha = rho1 st / inner_product B (q st) (p st);
          st = st\<lparr>x := axpby B alpha (p st) 1 (x st)\<rparr>;
          st = st\<lparr>r := axpby B (- alpha) (q st) 1 (r st)\<rparr>
      in st)"

text \<open>
  The loop condition of line 132 assigns \<open>res\<close> and tests it; \<open>iter < prm.maxiter\<close> is
  evaluated only when the first conjunct holds, and has no effect.
\<close>

definition cg_res :: "('s, 'v, 'm, 'bp) backend \<Rightarrow> ('s::inverse, 'v, 'm) cg_run \<Rightarrow> 's" where
  "cg_res B st = norm_v B (r st) / norm_of_rhs st"

definition cg_cond :: "('s, 'v, 'm, 'bp) backend \<Rightarrow> ('s::{inverse,ord}, 'v, 'm) cg_run \<Rightarrow> bool" where
  "cg_cond B st \<longleftrightarrow> cg_res B st > tol (prm st) \<and> iter st < maxiter (prm st)"

text \<open>One pass of the loop: the body, then the \<open>++iter\<close> of the loop header.\<close>

definition cg_iteration ::
  "('s, 'v, 'm, 'bp) backend \<Rightarrow> ('s::{zero,one,uminus,inverse}, 'v, 'm) cg_run
     \<Rightarrow> ('s, 'v, 'm) cg_run" where
  "cg_iteration B st = (cg_body B st)\<lparr>iter := iter st + 1\<rparr>"

text \<open>
  The \<open>for\<close> loop and the \<open>return\<close> after it: the loop ends with the iteration count,
  the \<open>res\<close> of the last test and the final memory. \<open>iter\<close> is a \<open>size_t\<close> that stays
  below \<open>maxiter\<close>, itself a \<open>size_t\<close>, so \<open>++iter\<close> never wraps.
\<close>

function cg_loop ::
  "('s, 'v, 'm, 'bp) backend \<Rightarrow> ('s::{zero,one,uminus,inverse,ord}, 'v, 'm) cg_run
     \<Rightarrow> (nat \<times> 's) \<times> ('s, 'v, 'm) cg_run" where
  "cg_loop B st =
     (if cg_cond B st
      then cg_loop B (cg_iteration B st)
      else ((iter st, cg_res B st), st))"
  by pat_completeness auto
termination
  by (relation "measure (\<lambda>(B, st). maxiter (prm st) - iter st)")
     (auto simp: cg_iteration_def cg_body_def cg_cond_def Let_def)

text \<open>
  The state in which the loop is entered, lines 119 to 129: \<open>r\<close> holds what
  \<open>backend::residual\<close> computed from the caller's \<open>x\<close>, \<open>rho1\<close> and \<open>rho2\<close> are zero,
  \<open>norm_of_rhs\<close> is the norm of \<open>rhs\<close>, \<open>iter\<close> is zero.
\<close>

definition cg_init ::
  "('s, 'v, 'm, 'bp) backend \<Rightarrow> ('s, 'v) cg \<Rightarrow> 'm \<Rightarrow> ('v \<Rightarrow> 'v) \<Rightarrow> 'v \<Rightarrow> 'v
     \<Rightarrow> ('s::zero, 'v, 'm) cg_run" where
  "cg_init B e A P rhs x0 =
     cg.extend (e\<lparr>r := residual B rhs A x0\<rparr>)
       (cg_run.fields A P rhs x0 0 0 (norm_v B rhs) 0)"

text \<open>
  The four-argument \<open>operator()\<close>, lines 119 to 152, on the memory it works on, and
  then as the caller sees it: a function that returns the tuple, the members after the
  call and the caller's \<open>x\<close> after the call.
\<close>

definition solve_run ::
  "('s, 'v, 'm, 'bp) backend \<Rightarrow> ('s, 'v) cg \<Rightarrow> 'm \<Rightarrow> ('v \<Rightarrow> 'v) \<Rightarrow> 'v \<Rightarrow> 'v
     \<Rightarrow> (nat \<times> 's) \<times> ('s::{zero,one,uminus,inverse,ord}, 'v, 'm) cg_run" where
  "solve_run B e A P rhs x0 =
     (let st = cg_init B e A P rhs x0
      in if norm_of_rhs st = 0
         then ((0, norm_of_rhs st), st\<lparr>x := clear B (x st)\<rparr>)
         else cg_loop B st)"

definition solve ::
  "('s, 'v, 'm, 'bp) backend \<Rightarrow> ('s, 'v) cg \<Rightarrow> 'm \<Rightarrow> ('v \<Rightarrow> 'v) \<Rightarrow> 'v \<Rightarrow> 'v
     \<Rightarrow> (nat \<times> 's) \<times> ('s::{zero,one,uminus,inverse,ord}, 'v) cg \<times> 'v" where
  "solve B e A P rhs x0 =
     (case solve_run B e A P rhs x0 of (res, st) \<Rightarrow> (res, cg.truncate st, x st))"

text \<open>The three-argument \<open>operator()\<close>, line 168.\<close>

definition solve3 ::
  "('s, 'v, 'm, 'bp) backend \<Rightarrow> ('s, 'v) cg \<Rightarrow> ('v, 'm) precond \<Rightarrow> 'v \<Rightarrow> 'v
     \<Rightarrow> (nat \<times> 's) \<times> ('s::{zero,one,uminus,inverse,ord}, 'v) cg \<times> 'v" where
  "solve3 B e P rhs x0 = solve B e (top_matrix P) (precond_apply P) rhs x0"

subsection \<open>The backend primitives\<close>

text \<open>
  The primitives live in \<open>amgcl/backend/interface.hpp\<close>, which is not among the
  sources. Section 4.1 of the specification states what each computes. It is written
  out here for vectors as lists of entries and matrices as lists of rows, each row the
  list of its entries, over any commutative ring, so that the arithmetic is exact.
\<close>

text \<open>
  Modelled from the spec: \<open>inner_product(u, v)\<close> of the missing backend, the sum of
  the products of the entries.
\<close>

definition dot :: "'s list \<Rightarrow> 's list \<Rightarrow> ('s::comm_ring_1)" where
  "dot u v = sum_list (map2 (*) u v)"

text \<open>
  Modelled from the spec: the matrix-vector product \<open>A\<cdot>x\<close> that \<open>residual\<close> and
  \<open>spmv\<close> of the missing backend are stated with; one inner product per row.
\<close>

definition mv :: "'s list list \<Rightarrow> 's list \<Rightarrow> ('s::comm_ring_1) list" where
  "mv A v = map (\<lambda>row. dot row v) A"

text \<open>
  Modelled from the spec: the missing backend. \<open>create_vector(n, backend_params)\<close>
  gives a vector of size \<open>n\<close> (filled with zeros here); \<open>residual(rhs, A, x, out)\<close>
  computes \<open>out := rhs - A\<cdot>x\<close>; \<open>norm(v)\<close> is the Euclidean norm, whose square root
  is the parameter \<open>rt\<close>; \<open>axpby(alpha, x, beta, y)\<close> computes
  \<open>y := alpha\<cdot>x + beta\<cdot>y\<close>; \<open>copy(src, dst)\<close> copies; \<open>spmv(alpha, A, x, beta, y)\<close>
  computes \<open>y := alpha\<cdot>A\<cdot>x + beta\<cdot>y\<close>; \<open>clear(v)\<close> fills with zeros. An entrywise
  operation on two lists of different lengths stops at the shorter one; the
  specification leaves mismatched dimensions undefined.
\<close>

definition spec_backend :: "('s \<Rightarrow> 's) \<Rightarrow> ('s::comm_ring_1, 's list, 's list list, unit) backend" where
  "spec_backend rt =
     \<lparr>create_vector = (\<lambda>k _. replicate k 0),
      backend_params = (),
      residual = (\<lambda>rhs A v. map2 (-) rhs (mv A v)),
      norm_v = (\<lambda>v. rt (dot v v)),
      inner_product = dot,
      axpby = (\<lambda>a u b v. map2 (\<lambda>ui vi. a * ui + b * vi) u v),
      copy = (\<lambda>v. v),
      spmv = (\<lambda>a A u b v. map2 (\<lambda>ti vi. a * ti + b * vi) (mv A u) v),
      clear = (\<lambda>v. map (\<lambda>_. 0) v)\<rparr>"

subsection \<open>The iteration as the specification words it\<close>

text \<open>
  The sum and the difference of two vectors and the multiple of a vector, as the
  specification's formulas use them.
\<close>

definition vadd :: "'s list \<Rightarrow> 's list \<Rightarrow> ('s::comm_ring_1) list" where
  "vadd u v = map2 (+) u v"

definition vsub :: "'s list \<Rightarrow> 's list \<Rightarrow> ('s::comm_ring_1) list" where
  "vsub u v = map2 (-) u v"

definition smul :: "'s \<Rightarrow> 's list \<Rightarrow> ('s::comm_ring_1) list" where
  "smul a v = map ((*) a) v"

text \<open>
  Section 4.3, step 4 of the specification, in its words, not the source's:
  \<open>s := P.apply(r)\<close>; \<open>rho2 := rho1\<close>; \<open>rho1 := \<langle>r, s\<rangle>\<close>; if \<open>iter > 0\<close> then
  \<open>p := s + (rho1/rho2)\<cdot>p\<close>, and \<open>p := s\<close> if \<open>iter = 0\<close>; \<open>q := A\<cdot>p\<close>;
  \<open>alpha := rho1 / \<langle>q, p\<rangle>\<close>; \<open>x := x + alpha\<cdot>p\<close>; \<open>r := r - alpha\<cdot>q\<close>; increment
  \<open>iter\<close>.
\<close>

definition spec_cg_step ::
  "('s::{comm_ring_1,inverse}, 's list, 's list list) cg_run \<Rightarrow> ('s, 's list, 's list list) cg_run" where
  "spec_cg_step st =
     (let s' = P_arg st (r st);
          rho2' = rho1 st;
          rho1' = dot (r st) s';
          p' = (if iter st > 0 then vadd s' (smul (rho1' / rho2') (p st)) else s');
          q' = mv (A_arg st) p';
          alpha = rho1' / dot q' p';
          x' = vadd (x st) (smul alpha p');
          r' = vsub (r st) (smul alpha q')
      in st\<lparr>s := s', rho2 := rho2', rho1 := rho1', p := p', q := q', x := x', r := r',
            iter := iter st + 1\<rparr>)"

subsection \<open>The residual that the iterations keep\<close>

text \<open>
  An invariant for the proofs, not part of the program: with the primitives of the
  specification and vectors of one size \<open>N\<close>, every state at the loop test has in \<open>r\<close>
  the residual of its \<open>x\<close>, since the update of \<open>r\<close> in the body follows the update of
  \<open>x\<close>. \<open>p\<close> is only read when \<open>iter\<close> is not zero.
\<close>

definition residual_inv ::
  "nat \<Rightarrow> ('s::{comm_ring_1,inverse}, 's list, 's list list) cg_run \<Rightarrow> bool" where
  "residual_inv N st \<longleftrightarrow>
     r st = vsub (rhs_arg st) (mv (A_arg st) (x st))
     \<and> length (x st) = N \<and> length (rhs_arg st) = N \<and> length (A_arg st) = N
     \<and> N \<le> length (q st) \<and> (0 < iter st \<longrightarrow> length (p st) = N)
     \<and> (\<forall>v. length v = N \<longrightarrow> length (P_arg st v) = N)"

subsection \<open>A system to run the solver on\<close>

text \<open>
  A solver for systems of size two over the reals with tolerance \<open>1/100\<close> and the
  iteration limit \<open>m\<close>, and a symmetric positive definite matrix. With the right-hand
  side \<open>[1, 0]\<close>, the identity as preconditioner and the start \<open>[0, 0]\<close>, no
  denominator is zero on the way to the solution \<open>[5, -2]\<close>.
\<close>

definition cg_ex :: "nat \<Rightarrow> (real, real list) cg" where
  "cg_ex m = \<lparr>prm = \<lparr>maxiter = m, tol = 1 / 100\<rparr>, n = 2,
              r = [0, 0], s = [0, 0], p = [0, 0], q = [0, 0]\<rparr>"

definition A_ex :: "real list list" where
  "A_ex = [[1, 2], [2, 5]]"

text \<open>
  An indefinite matrix, for which \<open>\<langle>q, p\<rangle>\<close> is zero in the first iteration when the
  right-hand side is \<open>[1, 1]\<close>, and a preconditioner with \<open>\<langle>r, P r\<rangle> = 0\<close> for every
  \<open>r\<close> of size two, for which \<open>rho1\<close> is zero after the first iteration.
\<close>

definition A_indef :: "real list list" where
  "A_indef = [[1, 0], [0, - 1]]"

definition P_skew :: "real list \<Rightarrow> real list" where
  "P_skew v = (case v of [a, b] \<Rightarrow> [b, - a] | _ \<Rightarrow> v)"

subsection \<open>The value type double\<close>

text \<open>
  The program in \<open>src/unnamed/part_000\<close> uses the solvers with the value type
  \<open>double\<close> (lines 179 to 203). Its arithmetic is that of IEEE 754 binary64 with
  rounding to nearest, ties to even: the result of an operation on finite values is the
  exact result rounded to 53 significant bits. \<open>rne\<close> rounds a real to the nearest
  integer, ties to the even one; \<open>rnd\<close> rounds a real to 53 significant bits. Not
  modelled: the exponent range (overflow, subnormal numbers) and the sign of zero.
\<close>

definition rne :: "real \<Rightarrow> int" where
  "rne m = (let f = \<lfloor>m\<rfloor>
            in if m - of_int f < 1 / 2 then f
               else if 1 / 2 < m - of_int f then f + 1
               else if even f then f else f + 1)"

definition rnd :: "real \<Rightarrow> real" where
  "rnd v = (if v = 0 then 0
            else let e = \<lfloor>log 2 \<bar>v\<bar>\<rfloor> - 52
                 in of_int (rne (v / 2 powi e)) * 2 powi e)"

text \<open>
  A value is a finite number, an infinity or a NaN. A division of a finite number by
  zero gives an infinity, and a NaN when the number is zero; an infinity times zero and
  the difference of two infinities are NaN; every operation on a NaN gives a NaN and
  every comparison with a NaN is false.
\<close>

datatype fl = Fin real | PInf | NInf | NaN

fun fl_neg :: "fl \<Rightarrow> fl" where
  "fl_neg (Fin a) = Fin (- a)"
| "fl_neg PInf = NInf"
| "fl_neg NInf = PInf"
| "fl_neg NaN = NaN"

fun fl_add :: "fl \<Rightarrow> fl \<Rightarrow> fl" where
  "fl_add (Fin a) (Fin b) = Fin (rnd (a + b))"
| "fl_add NaN b = NaN"
| "fl_add a NaN = NaN"
| "fl_add PInf NInf = NaN"
| "fl_add NInf PInf = NaN"
| "fl_add PInf b = PInf"
| "fl_add NInf b = NInf"
| "fl_add (Fin a) b = b"

fun fl_mul :: "fl \<Rightarrow> fl \<Rightarrow> fl" where
  "fl_mul (Fin a) (Fin b) = Fin (rnd (a * b))"
| "fl_mul NaN b = NaN"
| "fl_mul a NaN = NaN"
| "fl_mul PInf (Fin b) = (if b = 0 then NaN else if 0 < b then PInf else NInf)"
| "fl_mul NInf (Fin b) = (if b = 0 then NaN else if 0 < b then NInf else PInf)"
| "fl_mul (Fin a) PInf = (if a = 0 then NaN else if 0 < a then PInf else NInf)"
| "fl_mul (Fin a) NInf = (if a = 0 then NaN else if 0 < a then NInf else PInf)"
| "fl_mul PInf PInf = PInf"
| "fl_mul NInf NInf = PInf"
| "fl_mul PInf NInf = NInf"
| "fl_mul NInf PInf = NInf"

fun fl_div :: "fl \<Rightarrow> fl \<Rightarrow> fl" where
  "fl_div (Fin a) (Fin b) =
     (if b = 0 then (if a = 0 then NaN else if 0 < a then PInf else NInf)
      else Fin (rnd (a / b)))"
| "fl_div NaN b = NaN"
| "fl_div a NaN = NaN"
| "fl_div (Fin a) b = Fin 0"
| "fl_div PInf (Fin b) = (if 0 \<le> b then PInf else NInf)"
| "fl_div NInf (Fin b) = (if 0 \<le> b then NInf else PInf)"
| "fl_div a b = NaN"

fun fl_less :: "fl \<Rightarrow> fl \<Rightarrow> bool" where
  "fl_less (Fin a) (Fin b) \<longleftrightarrow> a < b"
| "fl_less NaN b \<longleftrightarrow> False"
| "fl_less a NaN \<longleftrightarrow> False"
| "fl_less a NInf \<longleftrightarrow> False"
| "fl_less PInf b \<longleftrightarrow> False"
| "fl_less NInf b \<longleftrightarrow> True"
| "fl_less (Fin a) PInf \<longleftrightarrow> True"

text \<open>The operators of the value type, as the solver and the backend write them.\<close>

instantiation fl :: "{zero,one,uminus,plus,minus,times,inverse,ord}"
begin

definition zero_fl :: fl where
  "zero_fl = Fin 0"

definition one_fl :: fl where
  "one_fl = Fin 1"

definition uminus_fl :: "fl \<Rightarrow> fl" where
  "uminus_fl = fl_neg"

definition plus_fl :: "fl \<Rightarrow> fl \<Rightarrow> fl" where
  "plus_fl = fl_add"

definition minus_fl :: "fl \<Rightarrow> fl \<Rightarrow> fl" where
  "minus_fl a b = fl_add a (fl_neg b)"

definition times_fl :: "fl \<Rightarrow> fl \<Rightarrow> fl" where
  "times_fl = fl_mul"

definition divide_fl :: "fl \<Rightarrow> fl \<Rightarrow> fl" where
  "divide_fl = fl_div"

definition inverse_fl :: "fl \<Rightarrow> fl" where
  "inverse_fl a = fl_div (Fin 1) a"

definition less_fl :: "fl \<Rightarrow> fl \<Rightarrow> bool" where
  "less_fl = fl_less"

definition less_eq_fl :: "fl \<Rightarrow> fl \<Rightarrow> bool" where
  "less_eq_fl a b \<longleftrightarrow> fl_less a b \<or> (a = b \<and> a \<noteq> NaN)"

instance ..

end

fun fl_sqrt :: "fl \<Rightarrow> fl" where
  "fl_sqrt (Fin a) = (if a < 0 then NaN else Fin (rnd (sqrt a)))"
| "fl_sqrt PInf = PInf"
| "fl_sqrt NInf = NaN"
| "fl_sqrt NaN = NaN"

text \<open>
  Modelled from the spec: \<open>inner_product(u, v)\<close> of the missing backend at the value
  type \<open>double\<close>: the products are added one after the other to a sum that starts at
  zero, each product and each sum rounded.
\<close>

definition fl_dot :: "fl list \<Rightarrow> fl list \<Rightarrow> fl" where
  "fl_dot u v = foldl (+) 0 (map2 (*) u v)"

text \<open>
  Modelled from the spec: the matrix-vector product of the missing backend at the value
  type \<open>double\<close>, one inner product per row.
\<close>

definition fl_mv :: "fl list list \<Rightarrow> fl list \<Rightarrow> fl list" where
  "fl_mv A v = map (\<lambda>row. fl_dot row v) A"

text \<open>
  Modelled from the spec: the missing backend at the value type \<open>double\<close>, with the
  formulas of section 4.1 as in \<open>spec_backend\<close> and every arithmetic operation
  rounded on its own (no fused multiply-add).
\<close>

definition double_backend :: "(fl, fl list, fl list list, unit) backend" where
  "double_backend =
     \<lparr>create_vector = (\<lambda>k _. replicate k 0),
      backend_params = (),
      residual = (\<lambda>rhs A v. map2 (-) rhs (fl_mv A v)),
      norm_v = (\<lambda>v. fl_sqrt (fl_dot v v)),
      inner_product = fl_dot,
      axpby = (\<lambda>a u b v. map2 (\<lambda>ui vi. a * ui + b * vi) u v),
      copy = (\<lambda>v. v),
      spmv = (\<lambda>a A u b v. map2 (\<lambda>ti vi. a * ti + b * vi) (fl_mv A u) v),
      clear = (\<lambda>v. map (\<lambda>_. 0) v)\<rparr>"

text \<open>
  A solver over \<open>double\<close> with the tolerance \<open>1/128\<close> and the iteration limit \<open>m\<close>,
  whose scratch vectors are copies of \<open>z\<close>.
\<close>

definition cg_double :: "fl list \<Rightarrow> nat \<Rightarrow> (fl, fl list) cg" where
  "cg_double z m = \<lparr>prm = \<lparr>maxiter = m, tol = Fin (1 / 128)\<rparr>, n = length z,
      r = z, s = z, p = z, q = z\<rparr>"

section \<open>Properties\<close>

subsection \<open>Unfolding the loop\<close>

lemma cg_loop_continue:
  "cg_cond B st \<Longrightarrow> cg_loop B st = cg_loop B (cg_iteration B st)"
  by (subst cg_loop.simps) simp

lemma cg_loop_stop:
  "\<not> cg_cond B st \<Longrightarrow> cg_loop B st = ((iter st, cg_res B st), st)"
  by (subst cg_loop.simps) simp

declare cg_loop.simps [simp del]

subsection \<open>What an iteration leaves alone\<close>

lemma cg_body_frame:
  "prm (cg_body B st) = prm st" "n (cg_body B st) = n st"
  "A_arg (cg_body B st) = A_arg st" "P_arg (cg_body B st) = P_arg st"
  "rhs_arg (cg_body B st) = rhs_arg st"
  "norm_of_rhs (cg_body B st) = norm_of_rhs st" "iter (cg_body B st) = iter st"
  by (simp_all add: cg_body_def Let_def)

lemma cg_iteration_frame:
  "prm (cg_iteration B st) = prm st" "n (cg_iteration B st) = n st"
  "A_arg (cg_iteration B st) = A_arg st" "P_arg (cg_iteration B st) = P_arg st"
  "rhs_arg (cg_iteration B st) = rhs_arg st"
  "norm_of_rhs (cg_iteration B st) = norm_of_rhs st"
  "iter (cg_iteration B st) = iter st + 1"
  by (simp_all add: cg_iteration_def cg_body_frame)

lemma cg_iterate_frame:
  "prm ((cg_iteration B ^^ k) st) = prm st \<and> n ((cg_iteration B ^^ k) st) = n st
   \<and> A_arg ((cg_iteration B ^^ k) st) = A_arg st
   \<and> P_arg ((cg_iteration B ^^ k) st) = P_arg st
   \<and> rhs_arg ((cg_iteration B ^^ k) st) = rhs_arg st
   \<and> norm_of_rhs ((cg_iteration B ^^ k) st) = norm_of_rhs st
   \<and> iter ((cg_iteration B ^^ k) st) = iter st + k"
  by (induction k) (simp_all add: cg_iteration_frame)

lemma cg_init_fields:
  "prm (cg_init B e A P rhs x0) = prm e" "n (cg_init B e A P rhs x0) = n e"
  "r (cg_init B e A P rhs x0) = residual B rhs A x0" "s (cg_init B e A P rhs x0) = s e"
  "p (cg_init B e A P rhs x0) = p e" "q (cg_init B e A P rhs x0) = q e"
  "A_arg (cg_init B e A P rhs x0) = A" "P_arg (cg_init B e A P rhs x0) = P"
  "rhs_arg (cg_init B e A P rhs x0) = rhs"
  "x (cg_init B e A P rhs x0) = x0" "rho1 (cg_init B e A P rhs x0) = 0"
  "rho2 (cg_init B e A P rhs x0) = 0" "norm_of_rhs (cg_init B e A P rhs x0) = norm_v B rhs"
  "iter (cg_init B e A P rhs x0) = 0"
  by (simp_all add: cg_init_def cg.extend_def cg_run.fields_def)

lemma cg_loop_iterate:
  "\<exists>k. cg_loop B st =
          ((iter st + k, cg_res B ((cg_iteration B ^^ k) st)), (cg_iteration B ^^ k) st)
       \<and> \<not> cg_cond B ((cg_iteration B ^^ k) st)
       \<and> (\<forall>j<k. cg_cond B ((cg_iteration B ^^ j) st))"
proof (induction B st rule: cg_loop.induct)
  case (1 B st)
  let ?f = "cg_iteration B"
  show ?case
  proof (cases "cg_cond B st")
    case False
    then have "cg_loop B st = ((iter st + 0, cg_res B ((?f ^^ 0) st)), (?f ^^ 0) st)
      \<and> \<not> cg_cond B ((?f ^^ 0) st) \<and> (\<forall>j<0. cg_cond B ((?f ^^ j) st))"
      by (simp add: cg_loop_stop)
    then show ?thesis by blast
  next
    case True
    from "1.IH" [OF True] obtain k where
      k: "cg_loop B (?f st) = ((iter (?f st) + k, cg_res B ((?f ^^ k) (?f st))), (?f ^^ k) (?f st))"
        "\<not> cg_cond B ((?f ^^ k) (?f st))"
        "\<forall>j<k. cg_cond B ((?f ^^ j) (?f st))"
      by blast
    have a: "cg_loop B st = ((iter st + Suc k, cg_res B ((?f ^^ Suc k) st)), (?f ^^ Suc k) st)"
      using k(1) True by (simp add: cg_loop_continue funpow_swap1 cg_iteration_frame)
    have b: "\<not> cg_cond B ((?f ^^ Suc k) st)"
      using k(2) by (simp add: funpow_swap1)
    have c: "\<forall>j<Suc k. cg_cond B ((?f ^^ j) st)"
    proof (intro allI impI)
      fix j assume "j < Suc k"
      show "cg_cond B ((?f ^^ j) st)"
      proof (cases j)
        case 0
        then show ?thesis using True by simp
      next
        case (Suc i)
        with \<open>j < Suc k\<close> have "i < k" by simp
        with k(3) have "cg_cond B ((?f ^^ i) (?f st))" by blast
        then show ?thesis unfolding Suc by (simp add: funpow_swap1)
      qed
    qed
    from a b c show ?thesis by blast
  qed
qed

lemma solve_run_nonzero:
  "norm_v B rhs \<noteq> 0 \<Longrightarrow> solve_run B e A P rhs x0 = cg_loop B (cg_init B e A P rhs x0)"
  by (simp add: solve_run_def Let_def cg_init_fields)

lemma solve_run_zero:
  "norm_v B rhs = 0 \<Longrightarrow>
     solve_run B e A P rhs x0 = ((0, 0), (cg_init B e A P rhs x0)\<lparr>x := clear B x0\<rparr>)"
  by (simp add: solve_run_def Let_def cg_init_fields)

lemma truncate_init:
  "cg.truncate (cg_init B e A P rhs x0) = e\<lparr>r := residual B rhs A x0\<rparr>"
  by (simp add: cg_init_def cg.extend_def cg.truncate_def cg_run.fields_def)

lemmas ex_defs = cg_ex_def A_ex_def spec_backend_def dot_def mv_def


subsection \<open>Rounding at given values\<close>

lemma rnd_at:
  assumes "2 powi k \<le> \<bar>v\<bar>" and "\<bar>v\<bar> < 2 powi (k + 1)"
  shows "rnd v = of_int (rne (v / 2 powi (k - 52))) * 2 powi (k - 52)"
proof -
  have pos: "(0::real) < 2 powi k" by simp
  have "v \<noteq> 0"
  proof
    assume "v = 0"
    with assms(1) have "2 powi k \<le> (0::real)" by simp
    with pos show False by linarith
  qed
  moreover have "2 powr (real_of_int k + 1) = (2::real) powi (k + 1)"
    using powr_real_of_int' [of "2::real" "k + 1"] by simp
  then have "\<lfloor>log 2 \<bar>v\<bar>\<rfloor> = k"
    using assms \<open>v \<noteq> 0\<close> by (simp add: floor_log_eq_powr_iff powr_real_of_int')
  ultimately show ?thesis by (simp add: rnd_def Let_def)
qed

lemma rnd_0: "rnd 0 = 0" by (simp add: rnd_def)
lemma rnd_1: "rnd 1 = 1" using rnd_at [of 0 1] by (simp add: rne_def)

lemmas fl_defs = double_backend_def fl_dot_def fl_mv_def cg_double_def zero_fl_def one_fl_def
  uminus_fl_def plus_fl_def minus_fl_def times_fl_def divide_fl_def less_fl_def less_eq_fl_def
  rnd_0 rnd_1

lemma rnd_3: "rnd 3 = 3" using rnd_at [of 1 3] by (simp add: rne_def)
lemma rnd_9: "rnd 9 = 9" using rnd_at [of 3 9] by (simp add: rne_def)
lemma rnd_15: "rnd 15 = 15" using rnd_at [of 3 15] by (simp add: rne_def)
lemma rnd_45: "rnd 45 = 45" using rnd_at [of 5 45] by (simp add: rne_def)
lemma rnd_fifth: "rnd (1 / 5) = 3602879701896397 / 18014398509481984"
  using rnd_at [of "- 3" "1 / 5"] by (simp add: rne_def Let_def)
lemma sqrt_9: "sqrt 9 = 3"
  using real_sqrt_abs [of 3] by simp

lemma rnd_x1: "rnd (10808639105689191 / 18014398509481984) = 1351079888211149 / 2251799813685248"
  using rnd_at [of "- 1" "10808639105689191 / 18014398509481984"] by (simp add: rne_def Let_def)
lemma rnd_x2: "rnd (1351079888211149 / 2251799813685248) = 1351079888211149 / 2251799813685248"
  using rnd_at [of "- 1" "1351079888211149 / 2251799813685248"] by (simp add: rne_def Let_def)
lemma rnd_aq: "rnd (- (54043195528445955 / 18014398509481984)) = - 3"
  using rnd_at [of 1 "- (54043195528445955 / 18014398509481984)"] by (simp add: rne_def Let_def)
lemma rnd_ax: "rnd (6755399441055745 / 2251799813685248) = 6755399441055745 / 2251799813685248"
  using rnd_at [of 1 "6755399441055745 / 2251799813685248"] by (simp add: rne_def Let_def)
lemma rnd_r2: "rnd (- (1 / 2251799813685248)) = - (1 / 2251799813685248)"
  using rnd_at [of "- 51" "- (1 / 2251799813685248)"] by (simp add: rne_def Let_def)
lemma rnd_r2': "rnd (1 / 2251799813685248) = 1 / 2251799813685248"
  using rnd_at [of "- 51" "1 / 2251799813685248"] by (simp add: rne_def Let_def)
lemma rnd_rr: "rnd (1 / 5070602400912917605986812821504) = 1 / 5070602400912917605986812821504"
  using rnd_at [of "- 102" "1 / 5070602400912917605986812821504"] by (simp add: rne_def Let_def)
lemma sqrt_rr: "sqrt (1 / 5070602400912917605986812821504) = 1 / 2251799813685248"
  using real_sqrt_abs [of "1 / 2251799813685248"] by (simp add: power2_eq_square)
lemma rnd_res2: "rnd (1 / 6755399441055744) = 6004799503160661 / 40564819207303340847894502572032"
  using rnd_at [of "- 53" "1 / 6755399441055744"] by (simp add: rne_def Let_def)

lemmas rnd_vals = rnd_3 rnd_9 rnd_15 rnd_45 rnd_fifth sqrt_9 rnd_x1 rnd_x2 rnd_aq rnd_ax rnd_r2
  rnd_r2' rnd_rr sqrt_rr rnd_res2

subsection \<open>The zero right-hand side\<close>

text \<open>
  C3: when the norm of \<open>rhs\<close> is zero, the call returns \<open>(0, 0)\<close> and the caller's
  \<open>x\<close> is what \<open>backend::clear\<close> makes of it, whatever \<open>A\<close>, \<open>P\<close>, the parameters and
  the initial \<open>x\<close> are. No iteration runs: of the members only \<open>r\<close>, which line 119
  overwrites, has changed, and the preconditioner has not been applied. With the
  \<open>clear\<close> of the specification the new \<open>x\<close> is the vector of zeros, as the example
  after the theorem shows.
\<close>

theorem zero_rhs_short_circuit:
  assumes "norm_v B rhs = 0"
  shows "solve B e A P rhs x0 = ((0, 0), e\<lparr>r := residual B rhs A x0\<rparr>, clear B x0)"
  using assms
  by (simp add: solve_def solve_run_zero cg_init_def cg.extend_def cg.truncate_def
      cg_run.fields_def)

theorem zero_rhs_short_circuit_witness:
  "norm_v (spec_backend sqrt) [0, 0] = 0
   \<and> solve (spec_backend sqrt) (cg_ex 5) A_ex id [0, 0] [7, - 3]
       = ((0, 0), (cg_ex 5)\<lparr>r := [- 1, 1]\<rparr>, [0, 0])"
  using zero_rhs_short_circuit
    [of "spec_backend sqrt" "[0, 0]" "cg_ex 5" A_ex id "[7, - 3]"]
  by (simp add: ex_defs)

subsection \<open>The three-argument call\<close>

text \<open>
  C4: the three-argument call returns the tuple, the members and the \<open>x\<close> that the
  four-argument call returns for the matrix \<open>P.top_matrix()\<close>.
\<close>

theorem three_argument_delegates:
  "solve3 B e P rhs x0 = solve B e (top_matrix P) (precond_apply P) rhs x0"
  by (simp add: solve3_def)

subsection \<open>When the loop stops\<close>

text \<open>
  C2, as stated, fails: the loop goes on while \<open>res > tol\<close>, and a \<open>res\<close> that is a
  NaN fails this test without being at most \<open>tol\<close>. Over \<open>double\<close>, for the symmetric
  matrix with rows \<open>[0, 1]\<close> and \<open>[1, 0]\<close>, the right-hand side \<open>[1, 0]\<close>, the identity
  as preconditioner and the start \<open>[0, 0]\<close>, the first iteration divides by
  \<open>\<langle>q, p\<rangle> = 0\<close>, \<open>r\<close> becomes \<open>[NaN, -inf]\<close>, and the call with \<open>maxiter = 5\<close>
  returns \<open>(1, NaN)\<close>: neither \<open>res \<le> tol\<close> nor \<open>iter = maxiter\<close>.
\<close>

theorem stopping_rule_counterexample:
  "norm_v double_backend [1, 0] \<noteq> 0
   \<and> solve double_backend (cg_double [0, 0] 5) [[0, 1], [1, 0]] id [1, 0] [0, 0]
       = ((1, NaN),
          (cg_double [0, 0] 5)\<lparr>r := [NaN, NInf], s := [1, 0], p := [1, 0], q := [0, 1]\<rparr>,
          [PInf, NaN])
   \<and> \<not> NaN \<le> tol (prm (cg_double [0, 0] 5))
   \<and> (1::nat) \<noteq> maxiter (prm (cg_double [0, 0] 5))"
  by (simp add: solve_def solve_run_def cg_loop_stop cg_loop_continue cg_cond_def
      cg_res_def cg_iteration_def cg_body_def Let_def cg_init_fields fl_defs cg.truncate_def)

text \<open>
  C2, amended: for a right-hand side whose norm is not zero, for every backend and
  value type, the call runs some number \<open>k \<le> maxiter\<close> of iterations and returns \<open>k\<close>
  together with \<open>res = \<parallel>r\<parallel> / \<parallel>rhs\<parallel>\<close> for the \<open>r\<close> of the state after these \<open>k\<close>
  iterations (the value of the last loop test, not a recomputed one). Before each of
  the \<open>k\<close> iterations the test found \<open>res > tol\<close> and \<open>iter < maxiter\<close>; in the final
  state the test \<open>res > tol\<close> fails (for ordered values, \<open>res \<le> tol\<close>; a NaN fails it
  too) or \<open>k = maxiter\<close>. So a returned residual above \<open>tol\<close> comes with \<open>k = maxiter\<close>.
  The call is a total function: it always returns this pair.
\<close>

theorem stopping_rule:
  fixes B :: "('s::{zero,one,uminus,inverse,ord}, 'v, 'm, 'bp) backend"
  assumes "norm_v B rhs \<noteq> 0"
  shows "\<exists>k st. st = (cg_iteration B ^^ k) (cg_init B e A P rhs x0)
           \<and> solve B e A P rhs x0
               = ((k, norm_v B (r st) / norm_v B rhs), cg.truncate st, x st)
           \<and> (\<forall>j<k. tol (prm e) <
                       norm_v B (r ((cg_iteration B ^^ j) (cg_init B e A P rhs x0)))
                         / norm_v B rhs
                     \<and> j < maxiter (prm e))
           \<and> (\<not> tol (prm e) < norm_v B (r st) / norm_v B rhs \<or> k = maxiter (prm e))
           \<and> (tol (prm e) < norm_v B (r st) / norm_v B rhs \<longrightarrow> k = maxiter (prm e))
           \<and> k \<le> maxiter (prm e)"
proof -
  let ?f = "cg_iteration B" and ?i = "cg_init B e A P rhs x0"
  obtain k where k:
    "cg_loop B ?i = ((iter ?i + k, cg_res B ((?f ^^ k) ?i)), (?f ^^ k) ?i)"
    "\<not> cg_cond B ((?f ^^ k) ?i)" "\<forall>j<k. cg_cond B ((?f ^^ j) ?i)"
    using cg_loop_iterate [of B ?i] by blast
  have fr: "\<And>j. prm ((?f ^^ j) ?i) = prm e \<and> iter ((?f ^^ j) ?i) = j
                \<and> norm_of_rhs ((?f ^^ j) ?i) = norm_v B rhs"
    using cg_iterate_frame [where B = B and st = ?i] by (simp add: cg_init_fields)
  then have rs: "\<And>j. cg_res B ((?f ^^ j) ?i) = norm_v B (r ((?f ^^ j) ?i)) / norm_v B rhs"
    by (simp add: cg_res_def)
  have a: "solve B e A P rhs x0
             = ((k, norm_v B (r ((?f ^^ k) ?i)) / norm_v B rhs),
                cg.truncate ((?f ^^ k) ?i), x ((?f ^^ k) ?i))"
    using assms k(1) by (simp add: solve_def solve_run_nonzero cg_init_fields rs)
  have b: "\<forall>j<k. tol (prm e) < norm_v B (r ((?f ^^ j) ?i)) / norm_v B rhs
                   \<and> j < maxiter (prm e)"
    using k(3) fr rs by (simp add: cg_cond_def)
  have le: "k \<le> maxiter (prm e)"
  proof (cases k)
    case 0 then show ?thesis by simp
  next
    case (Suc i)
    then have "i < maxiter (prm e)" using b by simp
    then show ?thesis using Suc by simp
  qed
  have c: "\<not> tol (prm e) < norm_v B (r ((?f ^^ k) ?i)) / norm_v B rhs \<or> k = maxiter (prm e)"
    using k(2) fr rs le by (auto simp: cg_cond_def)
  then have d: "tol (prm e) < norm_v B (r ((?f ^^ k) ?i)) / norm_v B rhs
                  \<longrightarrow> k = maxiter (prm e)"
    by auto
  from a b c d le show ?thesis by blast
qed

theorem stopping_rule_witness:
  "norm_v (spec_backend sqrt) [1, 0] \<noteq> 0
   \<and> (\<exists>k st. st = (cg_iteration (spec_backend sqrt) ^^ k)
                    (cg_init (spec_backend sqrt) (cg_ex 1) A_ex id [1, 0] [0, 0])
        \<and> solve (spec_backend sqrt) (cg_ex 1) A_ex id [1, 0] [0, 0]
            = ((k, norm_v (spec_backend sqrt) (r st) / norm_v (spec_backend sqrt) [1, 0]),
               cg.truncate st, x st)
        \<and> (\<forall>j<k. tol (prm (cg_ex 1)) <
               norm_v (spec_backend sqrt) (r ((cg_iteration (spec_backend sqrt) ^^ j)
                 (cg_init (spec_backend sqrt) (cg_ex 1) A_ex id [1, 0] [0, 0])))
                 / norm_v (spec_backend sqrt) [1, 0]
             \<and> j < maxiter (prm (cg_ex 1)))
        \<and> (\<not> tol (prm (cg_ex 1))
               < norm_v (spec_backend sqrt) (r st) / norm_v (spec_backend sqrt) [1, 0]
             \<or> k = maxiter (prm (cg_ex 1)))
        \<and> (tol (prm (cg_ex 1))
               < norm_v (spec_backend sqrt) (r st) / norm_v (spec_backend sqrt) [1, 0]
             \<longrightarrow> k = maxiter (prm (cg_ex 1)))
        \<and> k \<le> maxiter (prm (cg_ex 1)))"
proof -
  have h: "norm_v (spec_backend sqrt) [1, 0::real] \<noteq> 0"
    by (simp add: ex_defs)
  from h stopping_rule [OF h, of "cg_ex 1" A_ex id "[0, 0]"] show ?thesis
    by blast
qed

subsection \<open>An iteration limit of zero\<close>

text \<open>
  C5, as stated, fails when the norm of \<open>rhs\<close> is zero: line 125 clears \<open>x\<close> before
  the loop is reached, so \<open>x\<close> does not stay as it was.
\<close>

theorem maxiter_zero_counterexample:
  "maxiter (prm (cg_ex 0)) = 0
   \<and> snd (snd (solve (spec_backend sqrt) (cg_ex 0) A_ex id [0, 0] [7, - 3])) \<noteq> [7, - 3]"
  by (simp add: solve_def solve_run_zero cg_init_fields ex_defs)

text \<open>
  C5, amended: with \<open>maxiter = 0\<close> and a right-hand side whose norm is not zero, the
  call returns \<open>iter = 0\<close> and the norm of the initial residual divided by the norm of
  \<open>rhs\<close>; the body never runs: \<open>x\<close>, \<open>s\<close>, \<open>p\<close> and \<open>q\<close> are as before the call, and
  \<open>r\<close> holds the initial residual.
\<close>

theorem maxiter_zero:
  assumes "maxiter (prm e) = 0" and "norm_v B rhs \<noteq> 0"
  shows "solve B e A P rhs x0
           = ((0, norm_v B (residual B rhs A x0) / norm_v B rhs),
              e\<lparr>r := residual B rhs A x0\<rparr>, x0)"
proof -
  have "\<not> cg_cond B (cg_init B e A P rhs x0)"
    using assms(1) by (simp add: cg_cond_def cg_init_fields)
  then show ?thesis
    using assms(2)
    by (simp add: solve_def solve_run_nonzero cg_loop_stop cg_res_def cg_init_fields
        truncate_init)
qed

theorem maxiter_zero_witness:
  "maxiter (prm (cg_ex 0)) = 0 \<and> norm_v (spec_backend sqrt) [1, 0] \<noteq> 0
   \<and> solve (spec_backend sqrt) (cg_ex 0) A_ex id [1, 0] [7, - 3]
       = ((0, 1), (cg_ex 0)\<lparr>r := [0, 1]\<rparr>, [7, - 3])"
  using maxiter_zero [of "cg_ex 0" "spec_backend sqrt" "[1, 0]" A_ex id "[7, - 3]"]
  by (simp add: ex_defs)

subsection \<open>The default parameters\<close>

text \<open>
  C10: a solver constructed without parameters has \<open>maxiter = 100\<close> and
  \<open>tol = 1e-8\<close>, and these are the two values every loop test of a call on it
  compares with: after any number \<open>k\<close> of iterations the loop goes on exactly when
  \<open>res > 1e-8\<close> and \<open>k < 100\<close>.
\<close>

theorem default_parameters:
  "prm (cg_ctor B sz None bp) = \<lparr>maxiter = 100, tol = 1 / 100000000\<rparr>
   \<and> (\<forall>k. cg_cond B ((cg_iteration B ^^ k) (cg_init B (cg_ctor B sz None bp) A P rhs x0))
          \<longleftrightarrow> 1 / 100000000 <
                 cg_res B ((cg_iteration B ^^ k) (cg_init B (cg_ctor B sz None bp) A P rhs x0))
               \<and> k < 100)"
proof -
  have a: "prm (cg_ctor B sz None bp) = \<lparr>maxiter = 100, tol = 1 / 100000000\<rparr>"
    by (simp add: cg_ctor_def params_ctor_def Let_def)
  have "\<And>k. prm ((cg_iteration B ^^ k) (cg_init B (cg_ctor B sz None bp) A P rhs x0))
            = \<lparr>maxiter = 100, tol = 1 / 100000000\<rparr>
          \<and> iter ((cg_iteration B ^^ k) (cg_init B (cg_ctor B sz None bp) A P rhs x0)) = k"
    using cg_iterate_frame [where B = B and st = "cg_init B (cg_ctor B sz None bp) A P rhs x0"]
    by (simp add: cg_init_fields a)
  then show ?thesis using a by (simp add: cg_cond_def)
qed

subsection \<open>What a call leaves alone\<close>

lemma cg_loop_frame:
  "prm (snd (cg_loop B st)) = prm st \<and> n (snd (cg_loop B st)) = n st
   \<and> A_arg (snd (cg_loop B st)) = A_arg st \<and> P_arg (snd (cg_loop B st)) = P_arg st
   \<and> rhs_arg (snd (cg_loop B st)) = rhs_arg st"
proof -
  obtain k where "cg_loop B st =
    ((iter st + k, cg_res B ((cg_iteration B ^^ k) st)), (cg_iteration B ^^ k) st)"
    using cg_loop_iterate [of B st] by blast
  then show ?thesis using cg_iterate_frame [of k B st] by simp
qed

lemma solve_run_frame:
  "prm (snd (solve_run B e A P rhs x0)) = prm e \<and> n (snd (solve_run B e A P rhs x0)) = n e
   \<and> A_arg (snd (solve_run B e A P rhs x0)) = A \<and> P_arg (snd (solve_run B e A P rhs x0)) = P
   \<and> rhs_arg (snd (solve_run B e A P rhs x0)) = rhs"
proof (cases "norm_v B rhs = 0")
  case True
  then show ?thesis by (simp add: solve_run_zero cg_init_fields)
next
  case False
  then show ?thesis
    using cg_loop_frame [of B "cg_init B e A P rhs x0"]
    by (simp add: solve_run_nonzero cg_init_fields)
qed

lemma solve_by_run:
  "solve B e A P rhs x0 = (fst (solve_run B e A P rhs x0),
     cg.truncate (snd (solve_run B e A P rhs x0)), x (snd (solve_run B e A P rhs x0)))"
  by (simp add: solve_def split: prod.splits)

lemma truncate_fields:
  "prm (cg.truncate st) = prm st" "n (cg.truncate st) = n st"
  by (simp_all add: cg.truncate_def)

text \<open>
  C7: in the memory a call ends with, the arguments \<open>A\<close>, \<open>P\<close> and \<open>rhs\<close> and the
  members \<open>prm\<close> and \<open>n\<close> are what they were when it began, for the four-argument
  and for the three-argument call. What is left to change is \<open>x\<close>, the scratch vectors
  and the locals.
\<close>

theorem frame:
  "A_arg (snd (solve_run B e A P rhs x0)) = A
   \<and> P_arg (snd (solve_run B e A P rhs x0)) = P
   \<and> rhs_arg (snd (solve_run B e A P rhs x0)) = rhs
   \<and> prm (snd (solve_run B e A P rhs x0)) = prm e
   \<and> n (snd (solve_run B e A P rhs x0)) = n e
   \<and> prm (fst (snd (solve B e A P rhs x0))) = prm e
   \<and> n (fst (snd (solve B e A P rhs x0))) = n e
   \<and> prm (fst (snd (solve3 B e Q rhs x0))) = prm e
   \<and> n (fst (snd (solve3 B e Q rhs x0))) = n e"
  using solve_run_frame [of B e A P rhs x0]
    solve_run_frame [of B e "top_matrix Q" "precond_apply Q" rhs x0]
  by (simp add: solve3_def solve_by_run truncate_fields)


subsection \<open>A larger iteration limit\<close>

lemma cg_loop_unique:
  "\<not> cg_cond B ((cg_iteration B ^^ k) st) \<Longrightarrow>
   (\<forall>j<k. cg_cond B ((cg_iteration B ^^ j) st)) \<Longrightarrow>
   cg_loop B st = ((iter st + k, cg_res B ((cg_iteration B ^^ k) st)), (cg_iteration B ^^ k) st)"
proof (induction k arbitrary: st)
  case 0
  then show ?case by (simp add: cg_loop_stop)
next
  case (Suc k)
  from Suc.prems(2) have c0: "cg_cond B st" by force
  have "\<forall>j<k. cg_cond B ((cg_iteration B ^^ j) (cg_iteration B st))"
  proof (intro allI impI)
    fix j assume "j < k"
    then have "cg_cond B ((cg_iteration B ^^ Suc j) st)" using Suc.prems(2) by blast
    then show "cg_cond B ((cg_iteration B ^^ j) (cg_iteration B st))"
      by (simp add: funpow_swap1)
  qed
  moreover have "\<not> cg_cond B ((cg_iteration B ^^ k) (cg_iteration B st))"
    using Suc.prems(1) by (simp add: funpow_swap1)
  ultimately have "cg_loop B (cg_iteration B st) =
    ((iter (cg_iteration B st) + k, cg_res B ((cg_iteration B ^^ k) (cg_iteration B st))),
     (cg_iteration B ^^ k) (cg_iteration B st))"
    using Suc.IH by blast
  then show ?case using c0 by (simp add: cg_loop_continue funpow_swap1 cg_iteration_frame)
qed

lemma cg_iteration_prm:
  "cg_iteration B (st\<lparr>prm := pr\<rparr>) = (cg_iteration B st)\<lparr>prm := pr\<rparr>"
  by (simp add: cg_iteration_def cg_body_def Let_def)

lemma cg_iterate_prm:
  "(cg_iteration B ^^ k) (st\<lparr>prm := pr\<rparr>) = ((cg_iteration B ^^ k) st)\<lparr>prm := pr\<rparr>"
  by (induction k) (simp_all add: cg_iteration_prm)

lemma cg_res_prm: "cg_res B (st\<lparr>prm := pr\<rparr>) = cg_res B st"
  by (simp add: cg_res_def)

lemma cg_loop_larger_limit:
  assumes "m1 \<le> m2"
    and "cg_loop B (st\<lparr>prm := \<lparr>maxiter = m1, tol = t\<rparr>\<rparr>) = ((k, res), st1)"
    and "\<not> t < res"
  shows "cg_loop B (st\<lparr>prm := \<lparr>maxiter = m2, tol = t\<rparr>\<rparr>)
           = ((k, res), st1\<lparr>prm := \<lparr>maxiter = m2, tol = t\<rparr>\<rparr>)"
proof -
  let ?f = "cg_iteration B"
  let ?p1 = "\<lparr>maxiter = m1, tol = t\<rparr>" and ?p2 = "\<lparr>maxiter = m2, tol = t\<rparr>"
  obtain i where i:
    "cg_loop B (st\<lparr>prm := ?p1\<rparr>) = ((iter (st\<lparr>prm := ?p1\<rparr>) + i,
        cg_res B ((?f ^^ i) (st\<lparr>prm := ?p1\<rparr>))), (?f ^^ i) (st\<lparr>prm := ?p1\<rparr>))"
    "\<not> cg_cond B ((?f ^^ i) (st\<lparr>prm := ?p1\<rparr>))"
    "\<forall>j<i. cg_cond B ((?f ^^ j) (st\<lparr>prm := ?p1\<rparr>))"
    using cg_loop_iterate [of B "st\<lparr>prm := ?p1\<rparr>"] by blast
  from i(1) assms(2) have eqs: "k = iter st + i" "res = cg_res B ((?f ^^ i) st)"
    "st1 = ((?f ^^ i) st)\<lparr>prm := ?p1\<rparr>"
    by (simp_all add: cg_iterate_prm cg_res_prm)
  have stop: "\<not> cg_cond B ((?f ^^ i) (st\<lparr>prm := ?p2\<rparr>))"
    using assms(3) eqs(2) by (simp add: cg_cond_def cg_iterate_prm cg_res_prm)
  have go: "\<forall>j<i. cg_cond B ((?f ^^ j) (st\<lparr>prm := ?p2\<rparr>))"
    using i(3) assms(1) by (auto simp: cg_cond_def cg_iterate_prm cg_res_prm)
  from cg_loop_unique [OF stop go] show ?thesis
    using eqs by (simp add: cg_iterate_prm cg_res_prm)
qed

lemma cg_init_prm:
  "cg_init B (e\<lparr>prm := pr\<rparr>) A P rhs x0 = (cg_init B e A P rhs x0)\<lparr>prm := pr\<rparr>"
  by (simp add: cg_init_def cg.extend_def cg_run.fields_def)

lemma truncate_prm: "cg.truncate (st\<lparr>prm := pr\<rparr>) = (cg.truncate st)\<lparr>prm := pr\<rparr>"
  by (simp add: cg.truncate_def)

lemma solve_run_larger_limit:
  assumes "m1 \<le> m2"
    and "solve_run B (e\<lparr>prm := \<lparr>maxiter = m1, tol = t\<rparr>\<rparr>) A P rhs x0 = ((k, res), st1)"
    and "\<not> t < res"
  shows "solve_run B (e\<lparr>prm := \<lparr>maxiter = m2, tol = t\<rparr>\<rparr>) A P rhs x0
           = ((k, res), st1\<lparr>prm := \<lparr>maxiter = m2, tol = t\<rparr>\<rparr>)"
proof (cases "norm_v B rhs = 0")
  case True
  then show ?thesis using assms(2) by (auto simp: solve_run_zero cg_init_prm)
next
  case False
  then show ?thesis
    using assms cg_loop_larger_limit [where st = "cg_init B e A P rhs x0" and B = B and ?m1.0 = m1
        and ?m2.0 = m2 and t = t and k = k and res = res and ?st1.0 = st1]
    by (simp add: solve_run_nonzero cg_init_prm)
qed

text \<open>
  C9, as stated, fails: the residual norms of the conjugate gradient method need not
  fall from one iteration to the next. For the symmetric positive definite matrix
  \<open>A_ex\<close>, the right-hand side \<open>[1, 0]\<close>, the identity as preconditioner and the start
  \<open>[0, 0]\<close>, the call with \<open>maxiter = 0\<close> returns the residual 1 and the call with
  \<open>maxiter = 1\<close> returns the residual 2.
\<close>

theorem residual_monotone_counterexample:
  "fst (solve (spec_backend sqrt) (cg_ex 0) A_ex id [1, 0] [0, 0]) = (0, 1)
   \<and> fst (solve (spec_backend sqrt) (cg_ex 1) A_ex id [1, 0] [0, 0]) = (1, 2)
   \<and> \<not> snd (fst (solve (spec_backend sqrt) (cg_ex 1) A_ex id [1, 0] [0, 0]))
       \<le> snd (fst (solve (spec_backend sqrt) (cg_ex 0) A_ex id [1, 0] [0, 0]))"
  by (simp add: solve_def solve_run_nonzero cg_loop_stop cg_loop_continue cg_cond_def
      cg_res_def cg_iteration_def cg_body_def Let_def cg_init_fields ex_defs)

text \<open>
  C9, amended: for \<open>m1 \<le> m2\<close>, over a linearly ordered value type, if the call
  with \<open>maxiter = m1\<close> returns a residual that is at most \<open>tol\<close>, then the call with
  \<open>maxiter = m2\<close> on the same system returns the same iteration count, the same
  residual, the same \<open>x\<close> and the same scratch vectors; so its residual is no greater.
\<close>

theorem residual_kept_by_larger_limit:
  fixes B :: "('s::{zero,one,uminus,inverse,linorder}, 'v, 'm, 'bp) backend"
  assumes "m1 \<le> m2"
    and "solve B (e\<lparr>prm := \<lparr>maxiter = m1, tol = t\<rparr>\<rparr>) A P rhs x0 = ((k, res), e1, x1)"
    and "res \<le> t"
  shows "solve B (e\<lparr>prm := \<lparr>maxiter = m2, tol = t\<rparr>\<rparr>) A P rhs x0
           = ((k, res), e1\<lparr>prm := \<lparr>maxiter = m2, tol = t\<rparr>\<rparr>, x1)
         \<and> snd (fst (solve B (e\<lparr>prm := \<lparr>maxiter = m2, tol = t\<rparr>\<rparr>) A P rhs x0))
             \<le> snd (fst (solve B (e\<lparr>prm := \<lparr>maxiter = m1, tol = t\<rparr>\<rparr>) A P rhs x0))"
proof -
  obtain st1 where st1:
    "solve_run B (e\<lparr>prm := \<lparr>maxiter = m1, tol = t\<rparr>\<rparr>) A P rhs x0 = ((k, res), st1)"
    "e1 = cg.truncate st1" "x1 = x st1"
    using assms(2) by (auto simp: solve_def split: prod.splits)
  have "\<not> t < res" using assms(3) by simp
  from solve_run_larger_limit [OF assms(1) st1(1) this]
  have "solve B (e\<lparr>prm := \<lparr>maxiter = m2, tol = t\<rparr>\<rparr>) A P rhs x0
          = ((k, res), e1\<lparr>prm := \<lparr>maxiter = m2, tol = t\<rparr>\<rparr>, x1)"
    by (simp add: solve_def st1 truncate_prm)
  then show ?thesis using assms(2) by simp
qed

theorem residual_kept_by_larger_limit_witness:
  "(2::nat) \<le> 5
   \<and> solve (spec_backend sqrt) ((cg_ex 0)\<lparr>prm := \<lparr>maxiter = 2, tol = 1 / 100\<rparr>\<rparr>) A_ex id [1, 0] [0, 0]
       = ((2, 0), (cg_ex 2)\<lparr>s := [0, - 2], p := [4, - 2], q := [0, - 2]\<rparr>, [5, - 2])
   \<and> (0::real) \<le> 1 / 100
   \<and> solve (spec_backend sqrt) ((cg_ex 0)\<lparr>prm := \<lparr>maxiter = 5, tol = 1 / 100\<rparr>\<rparr>) A_ex id [1, 0] [0, 0]
       = ((2, 0), (cg_ex 5)\<lparr>s := [0, - 2], p := [4, - 2], q := [0, - 2]\<rparr>, [5, - 2])"
proof -
  have a: "solve (spec_backend sqrt) ((cg_ex 0)\<lparr>prm := \<lparr>maxiter = 2, tol = 1 / 100\<rparr>\<rparr>) A_ex id [1, 0] [0, 0]
       = ((2, 0), (cg_ex 2)\<lparr>s := [0, - 2], p := [4, - 2], q := [0, - 2]\<rparr>, [5, - 2])"
    by (simp add: solve_def solve_run_nonzero cg_loop_stop cg_loop_continue cg_cond_def
      cg_res_def cg_iteration_def cg_body_def Let_def cg_init_fields ex_defs cg.truncate_def)
  have b: "(0::real) \<le> 1 / 100" by simp
  have c: "(2::nat) \<le> 5" by simp
  from residual_kept_by_larger_limit [OF c a b] a show ?thesis
    by (simp add: cg_ex_def)
qed


subsection \<open>The iteration and the specification's step\<close>

lemma map2_swap: "map2 f u v = map2 (\<lambda>a b. f b a) v u"
proof (induction u arbitrary: v)
  case Nil
  then show ?case by simp
next
  case (Cons a u)
  then show ?case by (cases v) simp_all
qed

lemma map2_fst: "length u \<le> length v \<Longrightarrow> map2 (\<lambda>a b. a) u v = u"
proof (induction u arbitrary: v)
  case Nil
  then show ?case by simp
next
  case (Cons a u)
  then show ?case by (cases v) simp_all
qed

lemma axpby_one_left: "axpby (spec_backend rt) 1 u b v = vadd u (smul b v)"
  by (simp add: spec_backend_def vadd_def smul_def zip_map2 case_prod_unfold)

lemma axpby_one_right: "axpby (spec_backend rt) a u 1 v = vadd v (smul a u)"
proof -
  have "map2 (\<lambda>ui vi. a * ui + 1 * vi) u v = map2 (\<lambda>vi ui. vi + a * ui) v u"
    by (subst map2_swap) (simp add: add.commute)
  then show ?thesis
    by (simp add: spec_backend_def vadd_def smul_def zip_map2 case_prod_unfold)
qed

lemma vadd_smul_minus: "vadd v (smul (- a) u) = vsub v (smul a u)"
  by (simp add: vadd_def vsub_def smul_def zip_map2 case_prod_unfold)

lemma spmv_one_zero:
  "length A \<le> length v \<Longrightarrow> spmv (spec_backend rt) 1 A u 0 v = mv A u"
  using map2_fst [of "mv A u" v] by (simp add: spec_backend_def mv_def)

lemma spec_backend_fields:
  "inner_product (spec_backend rt) = dot" "copy (spec_backend rt) v = v"
  "residual (spec_backend rt) rhs A v = vsub rhs (mv A v)"
  "norm_v (spec_backend rt) v = rt (dot v v)"
  "clear (spec_backend rt) v = map (\<lambda>_. 0) v"
  by (simp_all add: spec_backend_def vsub_def)

lemma cg_iteration_spec:
  "length (A_arg st) \<le> length (q st) \<Longrightarrow> cg_iteration (spec_backend rt) st = spec_cg_step st"
  by (simp add: cg_iteration_def cg_body_def spec_cg_step_def Let_def axpby_one_left
      axpby_one_right vadd_smul_minus spmv_one_zero spec_backend_fields)






subsection \<open>A second call after convergence\<close>

lemma dot_linear:
  "length pv = length xv \<Longrightarrow> dot row (vadd xv (smul a pv)) = dot row xv + a * dot row pv"
proof (induction pv xv arbitrary: row rule: list_induct2)
  case Nil
  then show ?case by (simp add: dot_def vadd_def smul_def)
next
  case (Cons c pv d xv)
  show ?case
  proof (cases row)
    case Nil
    then show ?thesis by (simp add: dot_def)
  next
    case (Cons b row')
    from Cons.IH [of row'] show ?thesis
      unfolding Cons by (simp add: dot_def vadd_def smul_def algebra_simps)
  qed
qed

lemma mv_linear:
  assumes "length pv = length xv"
  shows "mv A (vadd xv (smul a pv)) = vadd (mv A xv) (smul a (mv A pv))"
proof -
  have "mv A (vadd xv (smul a pv)) = map (\<lambda>row. dot row xv + a * dot row pv) A"
    by (simp add: mv_def dot_linear [OF assms])
  also have "\<dots> = vadd (mv A xv) (smul a (mv A pv))"
    by (induction A) (simp_all add: mv_def vadd_def smul_def)
  finally show ?thesis .
qed

lemma vsub_vadd: "vsub u (vadd v w) = vsub (vsub u v) w"
proof (induction u arbitrary: v w)
  case Nil
  then show ?case by (simp add: vsub_def vadd_def)
next
  case (Cons a u)
  from Cons [of "tl v" "tl w"] show ?case
    by (cases v; cases w) (simp_all add: vsub_def vadd_def algebra_simps)
qed

lemma residual_update:
  "length pv = length xv \<Longrightarrow>
     vsub rhs (mv A (vadd xv (smul a pv))) = vsub (vsub rhs (mv A xv)) (smul a (mv A pv))"
  by (simp add: mv_linear vsub_vadd)

lemma length_vops:
  "length (vadd u v) = min (length u) (length v)"
  "length (vsub u v) = min (length u) (length v)"
  "length (smul a v) = length v" "length (mv A v) = length A"
  by (simp_all add: vadd_def vsub_def smul_def mv_def)

lemma spec_cg_step_inv:
  assumes "residual_inv N st"
  shows "residual_inv N (spec_cg_step st)"
proof -
  let ?s = "P_arg st (r st)"
  let ?b = "dot (r st) ?s / rho1 st"
  let ?p = "if 0 < iter st then vadd ?s (smul ?b (p st)) else ?s"
  let ?q = "mv (A_arg st) ?p"
  let ?al = "dot (r st) ?s / dot ?q ?p"
  from assms have inv:
    "r st = vsub (rhs_arg st) (mv (A_arg st) (x st))"
    "length (x st) = N" "length (rhs_arg st) = N" "length (A_arg st) = N"
    "N \<le> length (q st)" "0 < iter st \<longrightarrow> length (p st) = N"
    "\<forall>v. length v = N \<longrightarrow> length (P_arg st v) = N"
    by (simp_all add: residual_inv_def)
  have lr: "length (r st) = N" using inv(1,3,4) by (simp add: length_vops)
  then have ls: "length ?s = N" using inv(7) by blast
  have lp: "length ?p = N" using ls inv(6) by (simp add: length_vops)
  then have "length ?p = length (x st)" using inv(2) by simp
  from residual_update [OF this, of "rhs_arg st" "A_arg st" ?al]
  have "vsub (r st) (smul ?al ?q) = vsub (rhs_arg st) (mv (A_arg st) (vadd (x st) (smul ?al ?p)))"
    using inv(1) by simp
  moreover have "length (vadd (x st) (smul ?al ?p)) = N"
    using lp inv(2) by (simp add: length_vops)
  moreover have "N \<le> length ?q" using inv(4) by (simp add: length_vops)
  ultimately show ?thesis
    using inv(3,4,7) lp
    by (simp add: residual_inv_def spec_cg_step_def Let_def)
qed

lemma cg_iteration_inv:
  "residual_inv N st \<Longrightarrow> residual_inv N (cg_iteration (spec_backend rt) st)"
proof -
  assume a: "residual_inv N st"
  then have "length (A_arg st) \<le> length (q st)" by (simp add: residual_inv_def)
  then have "cg_iteration (spec_backend rt) st = spec_cg_step st" by (rule cg_iteration_spec)
  with spec_cg_step_inv [OF a] show ?thesis by simp
qed

lemma cg_iterate_inv:
  "residual_inv N st \<Longrightarrow> residual_inv N ((cg_iteration (spec_backend rt) ^^ k) st)"
  by (induction k) (simp_all add: cg_iteration_inv)

lemma cg_init_inv:
  assumes "length (q e) = N" "length A = N" "length rhs = N" "length x0 = N"
    "\<forall>v. length v = N \<longrightarrow> length (P v) = N"
  shows "residual_inv N (cg_init (spec_backend rt) e A P rhs x0)"
  using assms by (simp add: residual_inv_def cg_init_fields spec_backend_fields)

text \<open>
  C8, as stated, fails over \<open>double\<close>: the \<open>r\<close> that line 149 keeps up to date is
  not the \<open>rhs - A\<cdot>x\<close> that line 119 computes afresh, because each is rounded on its
  own way. For the matrix \<open>[[5]]\<close>, the right-hand side \<open>[3]\<close>, the identity as
  preconditioner, the start \<open>[0]\<close> and \<open>tol = 1/128\<close>: \<open>alpha\<close> is \<open>1/5\<close> rounded,
  \<open>alpha\<cdot>3\<close> is a tie that rounds up to \<open>x\<close>, \<open>alpha\<cdot>15\<close> rounds to 3 and \<open>r\<close>
  becomes 0, so the first call returns \<open>(1, 0)\<close>. The second call computes
  \<open>r = 3 - 5\<cdot>x\<close>, which is 2 to the power -51 below zero, and returns 0 iterations
  with a residual that is not 0.
\<close>

theorem idempotent_after_convergence_counterexample:
  "norm_v double_backend [Fin 3] \<noteq> 0
   \<and> solve double_backend (cg_double [0] 5) [[Fin 5]] id [Fin 3] [0]
       = ((1, Fin 0), (cg_double [0] 5)\<lparr>s := [Fin 3], p := [Fin 3], q := [Fin 15]\<rparr>,
          [Fin (1351079888211149 / 2251799813685248)])
   \<and> Fin 0 \<le> tol (prm (cg_double [0] 5))
   \<and> solve double_backend ((cg_double [0] 5)\<lparr>s := [Fin 3], p := [Fin 3], q := [Fin 15]\<rparr>)
         [[Fin 5]] id [Fin 3] [Fin (1351079888211149 / 2251799813685248)]
       = ((0, Fin (6004799503160661 / 40564819207303340847894502572032)),
          (cg_double [0] 5)\<lparr>r := [Fin (- (1 / 2251799813685248))],
             s := [Fin 3], p := [Fin 3], q := [Fin 15]\<rparr>,
          [Fin (1351079888211149 / 2251799813685248)])
   \<and> Fin (6004799503160661 / 40564819207303340847894502572032) \<noteq> Fin 0"
  by (simp add: solve_def solve_run_def cg_loop_stop cg_loop_continue cg_cond_def
      cg_res_def cg_iteration_def cg_body_def Let_def cg_init_fields fl_defs cg.truncate_def
      rnd_vals)

text \<open>
  C8, amended: with the primitives of the specification computed exactly, over a
  commutative ring with a linear order (no rounding; the division is left
  unspecified), and \<open>A\<close>, \<open>rhs\<close>, \<open>x\<close>, the scratch vector \<open>q\<close> and the
  preconditioner's results all of the solver's size: if the norm of \<open>rhs\<close> is not zero
  and a call returns \<open>(k, res)\<close> with \<open>res \<le> tol\<close>, then a second call on the solver
  and the \<open>x\<close> it left, with the same \<open>A\<close> and \<open>rhs\<close> and any preconditioner, returns
  \<open>(0, res)\<close> and leaves \<open>x\<close> and the solver as they are.
\<close>

theorem idempotent_after_convergence:
  fixes rt :: "'s \<Rightarrow> 's::{comm_ring_1,inverse,linorder}"
  assumes "length (q e) = n e" and "length A = n e" and "length rhs = n e"
    and "length x0 = n e" and "\<forall>v. length v = n e \<longrightarrow> length (P v) = n e"
    and "norm_v (spec_backend rt) rhs \<noteq> 0"
    and "solve (spec_backend rt) e A P rhs x0 = ((k, res), e1, x1)"
    and "res \<le> tol (prm e)"
  shows "solve (spec_backend rt) e1 A P' rhs x1 = ((0, res), e1, x1)"
proof -
  let ?B = "spec_backend rt"
  let ?i = "cg_init ?B e A P rhs x0"
  obtain j where j:
    "cg_loop ?B ?i = ((iter ?i + j, cg_res ?B ((cg_iteration ?B ^^ j) ?i)), (cg_iteration ?B ^^ j) ?i)"
    using cg_loop_iterate [of ?B ?i] by blast
  let ?st = "(cg_iteration ?B ^^ j) ?i"
  from assms(6,7) j have fin: "res = cg_res ?B ?st" "e1 = cg.truncate ?st" "x1 = x ?st"
    by (simp_all add: solve_def solve_run_nonzero)
  have "residual_inv (n e) ?st"
    using cg_init_inv [OF assms(1-5)] by (rule cg_iterate_inv)
  then have rr: "r ?st = vsub (rhs_arg ?st) (mv (A_arg ?st) (x ?st))"
    by (simp add: residual_inv_def)
  have fr: "prm ?st = prm e" "A_arg ?st = A" "rhs_arg ?st = rhs" "norm_of_rhs ?st = norm_v ?B rhs"
    using cg_iterate_frame [of j ?B ?i] by (simp_all add: cg_init_fields)
  let ?i2 = "cg_init ?B e1 A P' rhs x1"
  have r2: "residual ?B rhs A x1 = r e1"
    using rr fr fin by (simp add: spec_backend_fields cg.truncate_def)
  have res2: "cg_res ?B ?i2 = res"
    using r2 fin fr by (simp add: cg_res_def cg_init_fields cg.truncate_def)
  have "prm e1 = prm e" using fin fr by (simp add: cg.truncate_def)
  then have "\<not> cg_cond ?B ?i2"
    using assms(8) res2 by (simp add: cg_cond_def cg_init_fields not_less)
  then have "solve_run ?B e1 A P' rhs x1 = ((0, res), ?i2)"
    using assms(6) res2 by (simp add: solve_run_nonzero cg_loop_stop cg_init_fields)
  moreover have "cg.truncate ?i2 = e1" using r2 by (simp add: truncate_init)
  ultimately show ?thesis by (simp add: solve_def cg_init_fields)
qed

theorem idempotent_after_convergence_witness:
  "length (q (cg_ex 5)) = n (cg_ex 5) \<and> length A_ex = n (cg_ex 5)
   \<and> length [1, 0::real] = n (cg_ex 5) \<and> length [0, 0::real] = n (cg_ex 5)
   \<and> norm_v (spec_backend sqrt) [1, 0] \<noteq> 0
   \<and> solve (spec_backend sqrt) (cg_ex 5) A_ex id [1, 0] [0, 0]
       = ((2, 0), (cg_ex 5)\<lparr>s := [0, - 2], p := [4, - 2], q := [0, - 2]\<rparr>, [5, - 2])
   \<and> (0::real) \<le> tol (prm (cg_ex 5))
   \<and> solve (spec_backend sqrt) ((cg_ex 5)\<lparr>s := [0, - 2], p := [4, - 2], q := [0, - 2]\<rparr>)
         A_ex id [1, 0] [5, - 2]
       = ((0, 0), (cg_ex 5)\<lparr>s := [0, - 2], p := [4, - 2], q := [0, - 2]\<rparr>, [5, - 2])"
proof -
  have d: "length (q (cg_ex 5)) = n (cg_ex 5)" "length A_ex = n (cg_ex 5)"
    "length [1, 0::real] = n (cg_ex 5)" "length [0, 0::real] = n (cg_ex 5)"
    "\<forall>v::real list. length v = n (cg_ex 5) \<longrightarrow> length (id v) = n (cg_ex 5)"
    by (simp_all add: ex_defs)
  have nz: "norm_v (spec_backend sqrt) [1, 0] \<noteq> 0" by (simp add: ex_defs)
  have a: "solve (spec_backend sqrt) (cg_ex 5) A_ex id [1, 0] [0, 0]
       = ((2, 0), (cg_ex 5)\<lparr>s := [0, - 2], p := [4, - 2], q := [0, - 2]\<rparr>, [5, - 2])"
    by (simp add: solve_def solve_run_nonzero cg_loop_stop cg_loop_continue cg_cond_def
      cg_res_def cg_iteration_def cg_body_def Let_def cg_init_fields ex_defs cg.truncate_def)
  have t: "(0::real) \<le> tol (prm (cg_ex 5))" by (simp add: ex_defs)
  from idempotent_after_convergence [OF d nz a t, of id] d nz a t show ?thesis
    by simp
qed


subsection \<open>Divisions by zero\<close>

text \<open>
  C6: for every backend and value type, in a state \<open>st\<close> where the loop test succeeds
  the loop goes on with the state the iteration computes, and nothing in the iteration
  looks at a denominator: when \<open>iter\<close> is not zero and the old \<open>rho1\<close>, which becomes
  \<open>rho2\<close>, is zero, the new \<open>p\<close> is built from the value type's quotient of the new
  \<open>rho1\<close> by zero; when \<open>\<langle>q, p\<rangle>\<close> is zero, the new \<open>x\<close> and \<open>r\<close> are built from the
  quotient of \<open>rho1\<close> by zero. The example after the theorem reaches both: the first in
  the second iteration of a call with the preconditioner \<open>P_skew\<close>, the second in the
  first iteration of a call with the matrix \<open>A_indef\<close>.
\<close>

theorem unguarded_divisions:
  assumes "cg_cond B st"
  shows "cg_loop B st = cg_loop B (cg_iteration B st)
    \<and> (iter st \<noteq> 0 \<and> rho1 st = 0 \<longrightarrow>
         p (cg_iteration B st)
           = axpby B 1 (P_arg st (r st)) (inner_product B (r st) (P_arg st (r st)) / 0) (p st))
    \<and> (inner_product B (q (cg_iteration B st)) (p (cg_iteration B st)) = 0 \<longrightarrow>
         x (cg_iteration B st)
           = axpby B (inner_product B (r st) (P_arg st (r st)) / 0) (p (cg_iteration B st)) 1 (x st)
         \<and> r (cg_iteration B st)
           = axpby B (- (inner_product B (r st) (P_arg st (r st)) / 0))
               (q (cg_iteration B st)) 1 (r st))"
proof -
  have a: "cg_loop B st = cg_loop B (cg_iteration B st)"
    using assms by (rule cg_loop_continue)
  have b: "iter st \<noteq> 0 \<and> rho1 st = 0 \<longrightarrow>
         p (cg_iteration B st)
           = axpby B 1 (P_arg st (r st)) (inner_product B (r st) (P_arg st (r st)) / 0) (p st)"
    by (simp add: cg_iteration_def cg_body_def Let_def)
  have c: "inner_product B (q (cg_iteration B st)) (p (cg_iteration B st)) = 0 \<longrightarrow>
         x (cg_iteration B st)
           = axpby B (inner_product B (r st) (P_arg st (r st)) / 0) (p (cg_iteration B st)) 1 (x st)
         \<and> r (cg_iteration B st)
           = axpby B (- (inner_product B (r st) (P_arg st (r st)) / 0))
               (q (cg_iteration B st)) 1 (r st)"
    by (simp add: cg_iteration_def cg_body_def Let_def)
  from a b c show ?thesis by blast
qed

theorem unguarded_divisions_witness:
  "cg_cond (spec_backend sqrt)
     (cg_iteration (spec_backend sqrt)
       (cg_init (spec_backend sqrt) (cg_ex 5) A_ex P_skew [1, 0] [0, 0]))
   \<and> iter (cg_iteration (spec_backend sqrt)
       (cg_init (spec_backend sqrt) (cg_ex 5) A_ex P_skew [1, 0] [0, 0])) \<noteq> 0
   \<and> rho1 (cg_iteration (spec_backend sqrt)
       (cg_init (spec_backend sqrt) (cg_ex 5) A_ex P_skew [1, 0] [0, 0])) = 0
   \<and> p (cg_iteration (spec_backend sqrt) (cg_iteration (spec_backend sqrt)
       (cg_init (spec_backend sqrt) (cg_ex 5) A_ex P_skew [1, 0] [0, 0])))
      = axpby (spec_backend sqrt) 1 [0, - 1] (0 / 0) [0, - 1]
   \<and> cg_cond (spec_backend sqrt) (cg_init (spec_backend sqrt) (cg_ex 5) A_indef id [1, 1] [0, 0])
   \<and> inner_product (spec_backend sqrt)
       (q (cg_iteration (spec_backend sqrt)
            (cg_init (spec_backend sqrt) (cg_ex 5) A_indef id [1, 1] [0, 0])))
       (p (cg_iteration (spec_backend sqrt)
            (cg_init (spec_backend sqrt) (cg_ex 5) A_indef id [1, 1] [0, 0]))) = 0
   \<and> x (cg_iteration (spec_backend sqrt)
            (cg_init (spec_backend sqrt) (cg_ex 5) A_indef id [1, 1] [0, 0]))
      = axpby (spec_backend sqrt) (2 / 0) [1, 1] 1 [0, 0]"
proof -
  let ?B = "spec_backend sqrt"
  let ?a = "cg_iteration ?B (cg_init ?B (cg_ex 5) A_ex P_skew [1, 0] [0, 0])"
  let ?b = "cg_init ?B (cg_ex 5) A_indef id [1, 1] [0, 0]"
  have a: "?a = \<lparr>prm = \<lparr>maxiter = 5, tol = 1 / 100\<rparr>, n = 2, r = [1, 0], s = [0, - 1],
        p = [0, - 1], q = [- 2, - 5], A_arg = A_ex, P_arg = P_skew, rhs_arg = [1, 0],
        x = [0, 0], rho1 = 0, rho2 = 0, norm_of_rhs = 1, iter = 1\<rparr>"
    by (simp add: cg_iteration_def cg_body_def Let_def cg_init_def cg.extend_def
        cg_run.fields_def ex_defs P_skew_def)
  have b: "?b = \<lparr>prm = \<lparr>maxiter = 5, tol = 1 / 100\<rparr>, n = 2, r = [1, 1], s = [0, 0],
        p = [0, 0], q = [0, 0], A_arg = A_indef, P_arg = id, rhs_arg = [1, 1],
        x = [0, 0], rho1 = 0, rho2 = 0, norm_of_rhs = sqrt 2, iter = 0\<rparr>"
    by (simp add: cg_init_def cg.extend_def cg_run.fields_def ex_defs A_indef_def)
  have ca: "cg_cond ?B ?a"
    unfolding a by (simp add: cg_cond_def cg_res_def ex_defs)
  have cb: "cg_cond ?B ?b"
    unfolding b by (simp add: cg_cond_def cg_res_def ex_defs)
  have ha: "iter ?a \<noteq> 0 \<and> rho1 ?a = 0"
    unfolding a by simp
  have ea: "P_arg ?a (r ?a) = [0, - 1]" "p ?a = [0, - 1]"
    "inner_product ?B (r ?a) [0, - 1] = 0"
    unfolding a by (simp_all add: P_skew_def ex_defs)
  have hb: "inner_product ?B (q (cg_iteration ?B ?b)) (p (cg_iteration ?B ?b)) = 0"
    unfolding b by (simp add: cg_iteration_def cg_body_def Let_def ex_defs A_indef_def)
  have eb: "p (cg_iteration ?B ?b) = [1, 1]" "x ?b = [0, 0]"
    "inner_product ?B (r ?b) (P_arg ?b (r ?b)) = 2"
    unfolding b by (simp_all add: cg_iteration_def cg_body_def Let_def ex_defs A_indef_def)
  have "p (cg_iteration ?B ?a)
          = axpby ?B 1 (P_arg ?a (r ?a)) (inner_product ?B (r ?a) (P_arg ?a (r ?a)) / 0) (p ?a)"
    using unguarded_divisions [OF ca] ha by blast
  then have pa: "p (cg_iteration ?B ?a) = axpby ?B 1 [0, - 1] (0 / 0) [0, - 1]"
    by (simp only: ea)
  have "x (cg_iteration ?B ?b)
          = axpby ?B (inner_product ?B (r ?b) (P_arg ?b (r ?b)) / 0) (p (cg_iteration ?B ?b)) 1 (x ?b)"
    using unguarded_divisions [OF cb] hb by blast
  then have xb: "x (cg_iteration ?B ?b) = axpby ?B (2 / 0) [1, 1] 1 [0, 0]"
    by (simp only: eb)
  from ca cb ha hb pa xb show ?thesis by blast
qed

end
